theory Spec2Isabelle
  imports Main "HOL-Library.Word"
begin

unbundle bit_operations_syntax

section \<open>The scull message queue of driver/scull.c\<close>

text \<open>
  The driver keeps one bounded message queue in a kmalloc'ed byte region. A slot is a
  length header of \<open>sizeof(ssize_t)\<close> bytes followed by \<open>scull_fifo_elemsz\<close> payload
  bytes. The semaphore \<open>writer\<close> counts the free slots, the semaphore \<open>reader\<close> the
  filled ones; \<open>head\<close> and \<open>end\<close> are the read and write cursors.

  Modelling decisions:
  \<^item> the target is LP64 Linux: \<open>int\<close> and \<open>unsigned int\<close> have 32 bits, \<open>size_t\<close>,
    \<open>ssize_t\<close> and \<open>long\<close> 64 bits; a length header is stored little-endian;
  \<^item> the pointers \<open>head\<close>, \<open>end\<close>, \<open>dataPtr\<close> and \<open>sizePtr\<close> are byte offsets from
    \<open>scull_message_queue\<close>, and the region is the list of its bytes;
  \<^item> unsigned C arithmetic is arithmetic on \<open>nat\<close> with the reduction modulo the width
    written out; the conversions between the C types are explicit functions;
  \<^item> what the kernel decides (a signal that ends a sleep, the readable or writable extent
    of a user buffer, the result of an allocation or registration) is an argument of the
    model.
\<close>

subsection \<open>C types and error numbers\<close>

type_synonym byte = "8 word"

definition ERESTARTSYS :: int where "ERESTARTSYS = 512"
definition EFAULT :: int where "EFAULT = 14"
definition ENOTTY :: int where "ENOTTY = 25"
definition ENOMEM :: int where "ENOMEM = 12"

text \<open>\<open>sizeof(ssize_t)\<close> and \<open>sizeof(size_t)\<close>.\<close>

definition sizeof_ssize_t :: nat where "sizeof_ssize_t = 8"

text \<open>Conversion of an \<open>int\<close> to \<open>size_t\<close>, of a \<open>size_t\<close> to \<open>ssize_t\<close>, and of an
  \<open>int\<close> to \<open>unsigned int\<close>.\<close>

definition size_t_of_int :: "int \<Rightarrow> nat" where
  "size_t_of_int i = nat (i mod 2 ^ 64)"

definition ssize_t_of_size_t :: "nat \<Rightarrow> int" where
  "ssize_t_of_size_t n =
     (let m = n mod 2 ^ 64 in if m < 2 ^ 63 then int m else int m - 2 ^ 64)"

definition uint_of_int :: "int \<Rightarrow> nat" where
  "uint_of_int i = nat (i mod 2 ^ 32)"

subsection \<open>The byte region\<close>

definition load_bytes :: "byte list \<Rightarrow> nat \<Rightarrow> nat \<Rightarrow> byte list" where
  "load_bytes m p n = take n (drop p m)"

definition store_bytes :: "byte list \<Rightarrow> nat \<Rightarrow> byte list \<Rightarrow> byte list" where
  "store_bytes m p bs = take p m @ bs @ drop (p + length bs) m"

fun le_bytes :: "nat \<Rightarrow> nat \<Rightarrow> byte list" where
  "le_bytes 0 v = []"
| "le_bytes (Suc n) v = of_nat (v mod 256) # le_bytes n (v div 256)"

fun le_value :: "byte list \<Rightarrow> nat" where
  "le_value [] = 0"
| "le_value (b # bs) = unat b + 256 * le_value bs"

text \<open>\<open>*(ssize_t *)p\<close> read as an unsigned value, and \<open>*(ssize_t *)p = v\<close>.\<close>

definition load_ssize :: "byte list \<Rightarrow> nat \<Rightarrow> nat" where
  "load_ssize m p = le_value (load_bytes m p sizeof_ssize_t)"

definition store_ssize :: "byte list \<Rightarrow> nat \<Rightarrow> nat \<Rightarrow> byte list" where
  "store_ssize m p v = store_bytes m p (le_bytes sizeof_ssize_t v)"

subsection \<open>The module's static variables\<close>

text \<open>
  \<open>end_ptr\<close> is the static \<open>end\<close>. \<open>queue_allocated\<close> says that \<open>scull_message_queue\<close>
  points to live memory, \<open>cdev_live\<close> that the character device is added (file
  operations can be called), \<open>chrdev_registered\<close> that the device number is registered.
\<close>

record scull =
  scull_major :: int
  scull_minor :: int
  scull_fifo_elemsz :: int
  scull_fifo_size :: int
  writer :: nat
  reader :: nat
  scull_message_queue :: "byte list"
  queue_allocated :: bool
  head :: nat
  end_ptr :: nat
  cdev_live :: bool
  chrdev_registered :: bool

text \<open>\<open>sizeof(ssize_t) + scull_fifo_elemsz\<close> and
  \<open>scull_fifo_size * (sizeof(ssize_t) + scull_fifo_elemsz)\<close>, both computed in \<open>size_t\<close>.\<close>

definition slot_bytes :: "scull \<Rightarrow> nat" where
  "slot_bytes s = (sizeof_ssize_t + size_t_of_int (scull_fifo_elemsz s)) mod 2 ^ 64"

definition region_bytes :: "scull \<Rightarrow> nat" where
  "region_bytes s = (size_t_of_int (scull_fifo_size s) * slot_bytes s) mod 2 ^ 64"

subsection \<open>Kernel primitives\<close>

text \<open>
  \<open>down_interruptible\<close> takes a permit at once when the count is positive; otherwise the
  caller sleeps, and a signal ends the sleep with an error and the count untouched.
  \<open>up\<close> adds a permit (the count is an \<open>unsigned int\<close>).
\<close>

datatype acquire = Acquired nat | Interrupted | Sleeps

definition down_interruptible :: "bool \<Rightarrow> nat \<Rightarrow> acquire" where
  "down_interruptible signal count =
     (if count > 0 then Acquired (count - 1)
      else if signal then Interrupted else Sleeps)"

definition up :: "nat \<Rightarrow> nat" where
  "up count = (count + 1) mod 2 ^ 32"

text \<open>
  \<open>sem_signal\<close>: a signal arrives while the caller sleeps on its semaphore.
  \<open>mutex_signal\<close>: another thread holds \<open>scull_mutex\<close> and a signal arrives while the
  caller sleeps on it, so that \<open>mutex_lock_interruptible\<close> fails.
\<close>

record wait_env =
  sem_signal :: bool
  mutex_signal :: bool

text \<open>
  \<open>copy_to_user\<close> to a user buffer of which \<open>writable\<close> bytes can be written: the number
  of bytes not copied, and the bytes that reached user space.
  \<open>copy_from_user\<close> from a user buffer whose readable bytes are \<open>src\<close>: the number of
  bytes not copied, and the \<open>n\<close> bytes left in the kernel destination (the kernel pads
  what it could not copy with zero bytes).
\<close>

definition copy_to_user :: "nat \<Rightarrow> byte list \<Rightarrow> nat \<Rightarrow> nat \<times> byte list" where
  "copy_to_user writable src n = (n - min n writable, take (min n writable) src)"

definition copy_from_user :: "byte list \<Rightarrow> nat \<Rightarrow> nat \<times> byte list" where
  "copy_from_user src n =
     (n - min n (length src), take n src @ replicate (n - length src) 0)"

subsection \<open>scull\_read\<close>

text \<open>
  A call either returns (the \<open>ssize_t\<close> result, the bytes that reached the user buffer,
  the new state), or is asleep in \<open>down_interruptible\<close> holding its locals \<open>dataPtr\<close>
  and \<open>dataSize\<close>, or stops in a divide error (a modulus of zero), or hands
  \<open>copy_to_user\<close> a source that runs past the end of the region, so that what is copied
  is memory beyond the allocation and the state does not determine it.
\<close>

datatype read_result =
  Read_Returns int "byte list" scull
| Read_Sleeps nat nat
| Read_Divide_Error
| Read_Overrun

text \<open>Lines 92 to 112: both the permit and the mutex are held.\<close>

definition scull_read_locked :: "nat \<Rightarrow> nat \<Rightarrow> nat \<Rightarrow> nat \<Rightarrow> scull \<Rightarrow> read_result" where
  "scull_read_locked dataPtr dataSize buf count s =
     (let count = (if count > dataSize then dataSize else count)
      in if dataPtr + count > length (scull_message_queue s) then Read_Overrun
         else
           let (left, out) =
                 copy_to_user buf (load_bytes (scull_message_queue s) dataPtr count) count
           in if left \<noteq> 0 then
                Read_Returns (- EFAULT) out (s\<lparr>writer := up (writer s)\<rparr>)
              else if region_bytes s = 0 then Read_Divide_Error
              else
                Read_Returns (ssize_t_of_size_t count) out
                  (s\<lparr>head := ((head s + slot_bytes s) mod 2 ^ 64) mod region_bytes s,
                     writer := up (writer s)\<rparr>))"

text \<open>Line 86 from \<open>down_interruptible(&reader)\<close> on, with the locals of lines 82 and 83
  given. A sleeping reader that is woken continues here.\<close>

definition scull_read_resume ::
  "wait_env \<Rightarrow> nat \<Rightarrow> nat \<Rightarrow> nat \<Rightarrow> nat \<Rightarrow> scull \<Rightarrow> read_result" where
  "scull_read_resume env dataPtr dataSize buf count s =
     (case down_interruptible (sem_signal env) (reader s) of
        Sleeps \<Rightarrow> Read_Sleeps dataPtr dataSize
      | Interrupted \<Rightarrow> Read_Returns (- ERESTARTSYS) [] (s\<lparr>writer := up (writer s)\<rparr>)
      | Acquired c \<Rightarrow>
          (if mutex_signal env then
             Read_Returns (- ERESTARTSYS) [] (s\<lparr>reader := c, writer := up (writer s)\<rparr>)
           else scull_read_locked dataPtr dataSize buf count (s\<lparr>reader := c\<rparr>)))"

text \<open>The whole call: \<open>buf\<close> is the writable extent of the user buffer.\<close>

definition scull_read :: "wait_env \<Rightarrow> nat \<Rightarrow> nat \<Rightarrow> scull \<Rightarrow> read_result" where
  "scull_read env buf count s =
     (let dataPtr = head s + sizeof_ssize_t;
          dataSize = load_ssize (scull_message_queue s) (head s)
      in scull_read_resume env dataPtr dataSize buf count s)"

subsection \<open>scull\_write\<close>

datatype write_result =
  Write_Returns int scull
| Write_Sleeps nat nat
| Write_Divide_Error

text \<open>Lines 134 to 150: both the permit and the mutex are held. \<open>buf\<close> is the list of
  the readable bytes of the user buffer.\<close>

definition scull_write_locked :: "nat \<Rightarrow> nat \<Rightarrow> byte list \<Rightarrow> nat \<Rightarrow> scull \<Rightarrow> write_result" where
  "scull_write_locked dataPtr sizePtr buf count s =
     (let count = (if count > size_t_of_int (scull_fifo_elemsz s)
                   then size_t_of_int (scull_fifo_elemsz s) else count);
          (left, data) = copy_from_user buf count;
          s1 = s\<lparr>scull_message_queue := store_bytes (scull_message_queue s) dataPtr data\<rparr>
      in if left = 0 then
           if region_bytes s = 0 then Write_Divide_Error
           else
             Write_Returns (ssize_t_of_size_t count)
               (s1\<lparr>scull_message_queue := store_ssize (scull_message_queue s1) sizePtr count,
                   end_ptr := ((end_ptr s + slot_bytes s) mod 2 ^ 64) mod region_bytes s,
                   reader := up (reader s)\<rparr>)
         else
           Write_Returns (ssize_t_of_size_t (size_t_of_int (- EFAULT)))
             (s1\<lparr>reader := up (reader s)\<rparr>))"

text \<open>Line 122 on, with the locals of lines 118 and 119 given.\<close>

definition scull_write_resume ::
  "wait_env \<Rightarrow> nat \<Rightarrow> nat \<Rightarrow> byte list \<Rightarrow> nat \<Rightarrow> scull \<Rightarrow> write_result" where
  "scull_write_resume env dataPtr sizePtr buf count s =
     (case down_interruptible (sem_signal env) (writer s) of
        Sleeps \<Rightarrow> Write_Sleeps dataPtr sizePtr
      | Interrupted \<Rightarrow> Write_Returns (- ERESTARTSYS) s
      | Acquired c \<Rightarrow>
          (if mutex_signal env then
             Write_Returns (- ERESTARTSYS) (s\<lparr>writer := c, reader := up (reader s)\<rparr>)
           else scull_write_locked dataPtr sizePtr buf count (s\<lparr>writer := c\<rparr>)))"

definition scull_write :: "wait_env \<Rightarrow> byte list \<Rightarrow> nat \<Rightarrow> scull \<Rightarrow> write_result" where
  "scull_write env buf count s =
     (let dataPtr = end_ptr s + sizeof_ssize_t;
          sizePtr = end_ptr s
      in scull_write_resume env dataPtr sizePtr buf count s)"

subsection \<open>scull\_ioctl\<close>

text \<open>
  The command constants are those of scull.h; the model takes them as parameters. \<open>_IOC_NR\<close>, \<open>_IOC_TYPE\<close> and \<open>_IOC_SIZE\<close> are the
  kernel's bit fields of a command word. \<open>access_ok\<close> is the kernel's check of a user
  address range.
\<close>

record scull_h =
  SCULL_IOC_MAGIC :: "32 word"
  SCULL_IOC_MAXNR :: "32 word"
  SCULL_IOCGETELEMSZ :: "32 word"

definition IOC_NR :: "32 word \<Rightarrow> 32 word" where
  "IOC_NR cmd = cmd AND 0xFF"

definition IOC_TYPE :: "32 word \<Rightarrow> 32 word" where
  "IOC_TYPE cmd = drop_bit 8 cmd AND 0xFF"

definition IOC_SIZE :: "32 word \<Rightarrow> 32 word" where
  "IOC_SIZE cmd = drop_bit 16 cmd AND 0x3FFF"

definition scull_ioctl ::
  "scull_h \<Rightarrow> (64 word \<Rightarrow> 32 word \<Rightarrow> bool) \<Rightarrow> 32 word \<Rightarrow> 64 word \<Rightarrow> scull \<Rightarrow> int \<times> scull" where
  "scull_ioctl h access_ok cmd arg s =
     (if IOC_TYPE cmd \<noteq> SCULL_IOC_MAGIC h then (- ENOTTY, s)
      else if IOC_NR cmd > SCULL_IOC_MAXNR h then (- ENOTTY, s)
      else if \<not> access_ok arg (IOC_SIZE cmd) then (- EFAULT, s)
      else if cmd = SCULL_IOCGETELEMSZ h then (scull_fifo_elemsz s, s)
      else (- ENOTTY, s))"

subsection \<open>Module initialisation and cleanup\<close>

text \<open>
  What the kernel answers during initialisation: the result of
  \<open>register_chrdev_region\<close> or \<open>alloc_chrdev_region\<close> and the major number the latter
  assigns when it succeeds (when it fails, \<open>dev\<close> is still 0 and \<open>MAJOR(dev)\<close> is 0),
  the result of \<open>cdev_add\<close>, and \<open>kmalloc\<close>'s answer, which is either \<open>NULL\<close>
  or fresh memory with arbitrary contents.
\<close>

record init_env =
  chrdev_result :: int
  chrdev_major :: int
  cdev_add_result :: int
  kmalloc_result :: "(nat \<Rightarrow> byte) option"

definition kmalloc :: "init_env \<Rightarrow> nat \<Rightarrow> byte list option" where
  "kmalloc env n = map_option (\<lambda>f. map f [0..<n]) (kmalloc_result env)"

definition sema_init :: "int \<Rightarrow> nat" where
  "sema_init val = uint_of_int val"

definition scull_cleanup_module :: "scull \<Rightarrow> scull" where
  "scull_cleanup_module s =
     s\<lparr>queue_allocated := False, cdev_live := False, chrdev_registered := False\<rparr>"

definition scull_init_module :: "init_env \<Rightarrow> scull \<Rightarrow> int \<times> scull" where
  "scull_init_module env s =
     (let result = chrdev_result env;
          s1 = (if scull_major s \<noteq> 0 then s
                else s\<lparr>scull_major := (if result < 0 then 0 else chrdev_major env)\<rparr>)
      in if result < 0 then (result, s1)
         else
           let s2 = s1\<lparr>chrdev_registered := True\<rparr>;
               result = cdev_add_result env
           in if result \<noteq> 0 then (result, scull_cleanup_module s2)
              else
                let s3 = s2\<lparr>cdev_live := True\<rparr> in
                case kmalloc env
                       ((size_t_of_int (scull_fifo_size s3)
                          * ((size_t_of_int (scull_fifo_elemsz s3) + sizeof_ssize_t) mod 2 ^ 64))
                        mod 2 ^ 64) of
                  None \<Rightarrow> (- ENOMEM, scull_cleanup_module s3)
                | Some m \<Rightarrow>
                    (0, s3\<lparr>scull_message_queue := m, queue_allocated := True,
                           head := 0, end_ptr := 0,
                           reader := sema_init 0,
                           writer := sema_init (scull_fifo_size s3)\<rparr>))"

text \<open>The static variables when the module is loaded with the given parameters.\<close>

definition scull_statics :: "int \<Rightarrow> int \<Rightarrow> int \<Rightarrow> int \<Rightarrow> scull" where
  "scull_statics major minor elemsz fifo_size =
     \<lparr>scull_major = major, scull_minor = minor,
      scull_fifo_elemsz = elemsz, scull_fifo_size = fifo_size,
      writer = 0, reader = 0, scull_message_queue = [], queue_allocated = False,
      head = 0, end_ptr = 0, cdev_live = False, chrdev_registered = False\<rparr>"

subsection \<open>Serialised, undisturbed operation\<close>

text \<open>No signal arrives and the mutex is free.\<close>

definition quiet :: wait_env where
  "quiet = \<lparr>sem_signal = False, mutex_signal = False\<rparr>"

text \<open>
  A schedule is a list of calls, each completed before the next begins. \<open>run\<close> is
  defined when every call returns without an error; it gives what each call returned.
\<close>

datatype call = Write "byte list" nat | Read nat nat

datatype event = Wrote int | Got int "byte list"

fun run :: "scull \<Rightarrow> call list \<Rightarrow> (event list \<times> scull) option" where
  "run s [] = Some ([], s)"
| "run s (Write buf count # cs) =
     (case scull_write quiet buf count s of
        Write_Returns r s' \<Rightarrow>
          (if r < 0 then None
           else map_option (\<lambda>(es, t). (Wrote r # es, t)) (run s' cs))
      | _ \<Rightarrow> None)"
| "run s (Read buf count # cs) =
     (case scull_read quiet buf count s of
        Read_Returns r out s' \<Rightarrow>
          (if r < 0 then None
           else map_option (\<lambda>(es, t). (Got r out # es, t)) (run s' cs))
      | _ \<Rightarrow> None)"




subsection \<open>The queue a state represents\<close>

text \<open>The parameters are those of a queue: a positive number of slots and a
  non-negative record size, both C \<open>int\<close>s.\<close>

definition valid_params :: "scull \<Rightarrow> bool" where
  "valid_params s \<longleftrightarrow>
     0 < scull_fifo_size s \<and> scull_fifo_size s < 2 ^ 31 \<and>
     0 \<le> scull_fifo_elemsz s \<and> scull_fifo_elemsz s < 2 ^ 31"

definition capacity :: "scull \<Rightarrow> nat" where
  "capacity s = nat (scull_fifo_size s)"

definition elem_size :: "scull \<Rightarrow> nat" where
  "elem_size s = nat (scull_fifo_elemsz s)"

text \<open>The index of the slot a cursor points to, and the record stored in a slot.\<close>

definition slot_of :: "scull \<Rightarrow> nat \<Rightarrow> nat" where
  "slot_of s p = p div slot_bytes s"

definition slot_length :: "scull \<Rightarrow> nat \<Rightarrow> nat" where
  "slot_length s k = load_ssize (scull_message_queue s) (k * slot_bytes s)"

definition slot_record :: "scull \<Rightarrow> nat \<Rightarrow> byte list" where
  "slot_record s k =
     load_bytes (scull_message_queue s) (k * slot_bytes s + sizeof_ssize_t) (slot_length s k)"

text \<open>The filled slots, from the head cursor on, circularly.\<close>

definition filled :: "scull \<Rightarrow> nat list" where
  "filled s = map (\<lambda>i. (slot_of s (head s) + i) mod capacity s) [0..<reader s]"

definition pending :: "scull \<Rightarrow> byte list list" where
  "pending s = map (slot_record s) (filled s)"

definition queue_inv :: "scull \<Rightarrow> bool" where
  "queue_inv s \<longleftrightarrow>
     valid_params s \<and>
     length (scull_message_queue s) = capacity s * (sizeof_ssize_t + elem_size s) \<and>
     head s mod slot_bytes s = 0 \<and> head s < region_bytes s \<and>
     end_ptr s mod slot_bytes s = 0 \<and> end_ptr s < region_bytes s \<and>
     writer s + reader s = capacity s \<and>
     slot_of s (end_ptr s) = (slot_of s (head s) + reader s) mod capacity s \<and>
     list_all (\<lambda>k. slot_length s k \<le> elem_size s) (filled s)"

subsection \<open>Schedules that complete\<close>


subsection \<open>Concrete environments and queues\<close>

text \<open>Every kernel call of the initialisation succeeds and the memory handed out is
  zeroed; the queue such an initialisation leaves.\<close>

definition zeroed :: init_env where
  "zeroed = \<lparr>chrdev_result = 0, chrdev_major = 240, cdev_add_result = 0,
             kmalloc_result = Some (\<lambda>a. 0)\<rparr>"

definition fresh_queue :: "int \<Rightarrow> int \<Rightarrow> scull" where
  "fresh_queue elemsz n = snd (scull_init_module zeroed (scull_statics 0 0 elemsz n))"

text \<open>A signal ends the sleep on the semaphore; a signal ends the sleep on the mutex.\<close>

definition sem_interrupted :: wait_env where
  "sem_interrupted = \<lparr>sem_signal = True, mutex_signal = False\<rparr>"

definition mutex_interrupted :: wait_env where
  "mutex_interrupted = \<lparr>sem_signal = False, mutex_signal = True\<rparr>"


text \<open>The allocation fails; everything before it succeeds.\<close>

definition no_memory :: init_env where
  "no_memory = \<lparr>chrdev_result = 0, chrdev_major = 240, cdev_add_result = 0,
                kmalloc_result = None\<rparr>"

text \<open>Two slots of four bytes after "abc" was written; one slot of four bytes after
  "abc" was written; one slot of four bytes after "abcd" was written and two bytes of it
  were read.\<close>

definition one_pending :: scull where
  "one_pending = (fresh_queue 4 2)\<lparr>writer := 1, reader := 1, end_ptr := 12,
     scull_message_queue := [3,0,0,0,0,0,0,0,97,98,99,0, 0,0,0,0,0,0,0,0,0,0,0,0]\<rparr>"

definition one_slot_abc :: scull where
  "one_slot_abc = (fresh_queue 4 1)\<lparr>writer := 0, reader := 1,
     scull_message_queue := [3,0,0,0,0,0,0,0,97,98,99,0]\<rparr>"

definition one_slot_read :: scull where
  "one_slot_read = (fresh_queue 4 1)\<lparr>
     scull_message_queue := [4,0,0,0,0,0,0,0,97,98,99,100]\<rparr>"

text \<open>
  An instance of the constants of scull.h: the magic number \<open>'k'\<close>, one command, and
  \<open>SCULL_IOCGETELEMSZ = _IO('k', 1)\<close>. An instance of \<open>access_ok\<close>: the range lies
  below the end of the user address space of x86-64.
\<close>

definition scull_h_usual :: scull_h where
  "scull_h_usual =
     \<lparr>SCULL_IOC_MAGIC = 0x6B, SCULL_IOC_MAXNR = 1, SCULL_IOCGETELEMSZ = 0x6B01\<rparr>"

definition user_space :: "64 word \<Rightarrow> 32 word \<Rightarrow> bool" where
  "user_space addr n \<longleftrightarrow> unat addr + unat n \<le> 0x7FFFFFFFF000"

section \<open>Arithmetic of the region\<close>

lemma length_le_bytes: "length (le_bytes n v) = n"
  by (induction n arbitrary: v) simp_all

lemma unat_byte_of_nat: "unat (of_nat (v mod 256) :: byte) = v mod 256"
  by (simp add: unat_of_nat)

lemma le_value_le_bytes: "le_value (le_bytes n v) = v mod 256 ^ n"
proof (induction n arbitrary: v)
  case 0
  show ?case by simp
next
  case (Suc n)
  have "v mod 256 + 256 * (v div 256 mod 256 ^ n) = v mod (256 * 256 ^ n)"
    by (simp add: mod_mult2_eq)
  with Suc show ?case by (simp add: unat_byte_of_nat)
qed

lemma length_store_bytes:
  "p + length bs \<le> length m \<Longrightarrow> length (store_bytes m p bs) = length m"
  by (simp add: store_bytes_def)

lemma load_store_same:
  "p \<le> length m \<Longrightarrow> n \<le> length bs \<Longrightarrow> load_bytes (store_bytes m p bs) p n = take n bs"
  by (simp add: load_bytes_def store_bytes_def)

lemma load_store_before:
  "q + n \<le> p \<Longrightarrow> p \<le> length m \<Longrightarrow> load_bytes (store_bytes m p bs) q n = load_bytes m q n"
  by (simp add: load_bytes_def store_bytes_def take_drop)

lemma load_store_after:
  "p + length bs \<le> q \<Longrightarrow> p + length bs \<le> length m \<Longrightarrow>
   load_bytes (store_bytes m p bs) q n = load_bytes m q n"
  by (simp add: load_bytes_def store_bytes_def)

lemma size_t_of_elemsz:
  "valid_params s \<Longrightarrow> size_t_of_int (scull_fifo_elemsz s) = elem_size s"
  by (simp add: valid_params_def size_t_of_int_def elem_size_def)

lemma size_t_of_size:
  "valid_params s \<Longrightarrow> size_t_of_int (scull_fifo_size s) = capacity s"
  by (simp add: valid_params_def size_t_of_int_def capacity_def)

lemma elem_size_bound: "valid_params s \<Longrightarrow> elem_size s < 2 ^ 31"
  by (auto simp: valid_params_def elem_size_def)

lemma capacity_bound: "valid_params s \<Longrightarrow> 0 < capacity s \<and> capacity s < 2 ^ 31"
  by (auto simp: valid_params_def capacity_def)

lemma slot_bytes_eq:
  "valid_params s \<Longrightarrow> slot_bytes s = sizeof_ssize_t + elem_size s"
  using elem_size_bound [of s]
  by (simp add: slot_bytes_def size_t_of_elemsz sizeof_ssize_t_def)

lemma slot_bytes_pos: "valid_params s \<Longrightarrow> 0 < slot_bytes s"
  by (simp add: slot_bytes_eq sizeof_ssize_t_def)

lemma region_small:
  assumes "valid_params s"
  shows "capacity s * slot_bytes s < 2 ^ 64"
proof -
  have c: "capacity s \<le> 2 ^ 31" using capacity_bound [OF assms] by simp
  have e: "slot_bytes s \<le> 2 ^ 32"
    using elem_size_bound [OF assms] by (simp add: slot_bytes_eq [OF assms] sizeof_ssize_t_def)
  have "capacity s * slot_bytes s \<le> 2 ^ 31 * 2 ^ 32" by (rule mult_le_mono [OF c e])
  also have "\<dots> < (2 ^ 64 :: nat)" by simp
  finally show ?thesis .
qed

lemma region_bytes_eq:
  "valid_params s \<Longrightarrow> region_bytes s = capacity s * slot_bytes s"
  using region_small [of s] by (simp add: region_bytes_def size_t_of_size)

lemma region_bytes_pos: "valid_params s \<Longrightarrow> 0 < region_bytes s"
  using capacity_bound [of s] slot_bytes_pos [of s] by (simp add: region_bytes_eq)

lemma cursor_slot:
  assumes "valid_params s" "p mod slot_bytes s = 0" "p < region_bytes s"
  shows "p = slot_of s p * slot_bytes s" and "slot_of s p < capacity s"
proof -
  show eq: "p = slot_of s p * slot_bytes s"
    using assms(2) by (simp add: slot_of_def mod_eq_0_iff_dvd)
  have "slot_of s p * slot_bytes s < capacity s * slot_bytes s"
    using assms(3) eq by (simp add: region_bytes_eq [OF assms(1)])
  then show "slot_of s p < capacity s" by simp
qed

lemma cursor_advance:
  assumes v: "valid_params s" and al: "p mod slot_bytes s = 0" and lt: "p < region_bytes s"
  defines "p' \<equiv> ((p + slot_bytes s) mod 2 ^ 64) mod region_bytes s"
  shows "p' mod slot_bytes s = 0" and "p' < region_bytes s"
    and "slot_of s p' = (slot_of s p + 1) mod capacity s"
proof -
  let ?sl = "slot_bytes s" and ?c = "capacity s"
  define k where "k = slot_of s p"
  have p: "p = k * ?sl" and k: "k < ?c"
    using cursor_slot [OF v al lt] by (simp_all add: k_def)
  have "Suc k * ?sl \<le> ?c * ?sl" using k by (intro mult_le_mono1) simp
  then have le: "p + ?sl \<le> ?c * ?sl" by (simp add: p)
  then have small: "p + ?sl < 2 ^ 64" using region_small [OF v] by simp
  have "(p + ?sl) mod 2 ^ 64 = p + ?sl" using small by simp
  then have "p' = (p + ?sl) mod (?c * ?sl)"
    by (simp only: p'_def region_bytes_eq [OF v])
  also have "p + ?sl = Suc k * ?sl" by (simp add: p)
  finally have p': "p' = (Suc k mod ?c) * ?sl" by (simp only: mod_mult_mult2)
  show "p' mod ?sl = 0" by (simp add: p')
  show "p' < region_bytes s"
    using region_bytes_pos [OF v] by (simp add: p'_def)
  have "slot_of s p' = Suc k mod ?c"
    using slot_bytes_pos [OF v] unfolding p' slot_of_def by simp
  then show "slot_of s p' = (slot_of s p + 1) mod ?c" by (simp add: k_def)
qed

lemma mod_shift_distinct:
  fixes h i r c :: nat
  assumes "i < r" "r < c"
  shows "(h + i) mod c \<noteq> (h + r) mod c"
proof
  assume eq: "(h + i) mod c = (h + r) mod c"
  have "(h + r) = (h + i) + (r - i)" using assms by simp
  then have "((h + i) + (r - i)) mod c = (h + i) mod c" using eq by simp
  then have "(r - i) mod c = 0"
    by (metis add_diff_cancel_left' mod_eq_dvd_iff_nat le_add1 dvd_eq_mod_eq_0)
  moreover have "0 < r - i" "r - i < c" using assms by simp_all
  ultimately show False by simp
qed

lemma load_store_other_slot:
  assumes "k \<noteq> j" "a + n \<le> sl" "b + length bs \<le> sl" "j * sl + b + length bs \<le> length m"
  shows "load_bytes (store_bytes m (j * sl + b) bs) (k * sl + a) n = load_bytes m (k * sl + a) n"
proof (cases "k < j")
  case True
  then have "Suc k * sl \<le> j * sl" by (intro mult_le_mono1) simp
  then have "k * sl + a + n \<le> j * sl + b" using assms(2) by simp
  then show ?thesis using assms(4) by (intro load_store_before) simp_all
next
  case False
  with assms(1) have "Suc j * sl \<le> k * sl" by (intro mult_le_mono1) simp
  then have "j * sl + b + length bs \<le> k * sl + a" using assms(3) by simp
  then show ?thesis using assms(4) by (intro load_store_after) simp_all
qed

text \<open>The region after a record is put into slot j.\<close>

lemma put_slot:
  fixes m :: "byte list"
  assumes sl: "sl = sizeof_ssize_t + e" and len: "length data \<le> e"
    and fit: "Suc j * sl \<le> length m"
  defines "m' \<equiv> store_ssize (store_bytes m (j * sl + sizeof_ssize_t) data) (j * sl) (length data)"
  shows "length m' = length m"
    and "\<And>k a n. k \<noteq> j \<Longrightarrow> a + n \<le> sl \<Longrightarrow>
           load_bytes m' (k * sl + a) n = load_bytes m (k * sl + a) n"
    and "e < 2 ^ 64 \<Longrightarrow> load_ssize m' (j * sl) = length data"
    and "load_bytes m' (j * sl + sizeof_ssize_t) (length data) = data"
proof -
  let ?m1 = "store_bytes m (j * sl + sizeof_ssize_t) data"
  let ?h = "le_bytes sizeof_ssize_t (length data)"
  have fit1: "j * sl + sizeof_ssize_t + length data \<le> length m"
    using fit len sl by simp
  have l1: "length ?m1 = length m" using fit1 by (simp add: length_store_bytes)
  have fit2: "j * sl + length ?h \<le> length ?m1"
    using fit1 by (simp add: l1 length_le_bytes)
  show "length m' = length m"
    using fit2 by (simp add: m'_def store_ssize_def length_store_bytes l1)
  show "load_bytes m' (k * sl + a) n = load_bytes m (k * sl + a) n"
    if "k \<noteq> j" "a + n \<le> sl" for k a n
  proof -
    have "load_bytes m' (k * sl + a) n = load_bytes ?m1 (k * sl + a) n"
      unfolding m'_def store_ssize_def
      using load_store_other_slot [of k j a n sl 0 ?h ?m1] that fit2 sl
      by (simp add: length_le_bytes)
    also have "\<dots> = load_bytes m (k * sl + a) n"
      using load_store_other_slot [of k j a n sl sizeof_ssize_t data m] that fit1 sl len
      by (simp add: add.assoc)
    finally show ?thesis .
  qed
  show "load_ssize m' (j * sl) = length data" if "e < 2 ^ 64"
  proof -
    have "load_bytes m' (j * sl) sizeof_ssize_t = ?h"
      unfolding m'_def store_ssize_def
      using load_store_same [of "j * sl" ?m1 sizeof_ssize_t ?h] fit2
      by (simp add: length_le_bytes)
    moreover have "length data < 256 ^ sizeof_ssize_t"
      using len that by (simp add: sizeof_ssize_t_def)
    ultimately show ?thesis by (simp add: load_ssize_def le_value_le_bytes)
  qed
  have "load_bytes m' (j * sl + sizeof_ssize_t) (length data)
        = load_bytes ?m1 (j * sl + sizeof_ssize_t) (length data)"
    unfolding m'_def store_ssize_def
    using fit2 by (intro load_store_after) (simp_all add: length_le_bytes)
  also have "\<dots> = data"
    using load_store_same [of "j * sl + sizeof_ssize_t" m "length data" data] fit1 by simp
  finally show "load_bytes m' (j * sl + sizeof_ssize_t) (length data) = data" .
qed

section \<open>Completed calls\<close>

lemma ssize_small: "n < 2 ^ 63 \<Longrightarrow> ssize_t_of_size_t n = int n"
  by (simp add: ssize_t_of_size_t_def)

lemma up_small: "n < 2 ^ 31 \<Longrightarrow> up n = Suc n"
  by (simp add: up_def)

lemma slot_bytes_upd [simp]:
  "slot_bytes (s\<lparr>writer := w\<rparr>) = slot_bytes s"
  "slot_bytes (s\<lparr>reader := r\<rparr>) = slot_bytes s"
  "slot_bytes (s\<lparr>scull_message_queue := m\<rparr>) = slot_bytes s"
  "slot_bytes (s\<lparr>head := p\<rparr>) = slot_bytes s"
  "slot_bytes (s\<lparr>end_ptr := p\<rparr>) = slot_bytes s"
  by (simp_all add: slot_bytes_def)

lemma region_bytes_upd [simp]:
  "region_bytes (s\<lparr>writer := w\<rparr>) = region_bytes s"
  "region_bytes (s\<lparr>reader := r\<rparr>) = region_bytes s"
  "region_bytes (s\<lparr>scull_message_queue := m\<rparr>) = region_bytes s"
  "region_bytes (s\<lparr>head := p\<rparr>) = region_bytes s"
  "region_bytes (s\<lparr>end_ptr := p\<rparr>) = region_bytes s"
  by (simp_all add: region_bytes_def)

lemma capacity_upd [simp]:
  "capacity (s\<lparr>writer := w\<rparr>) = capacity s"
  "capacity (s\<lparr>reader := r\<rparr>) = capacity s"
  "capacity (s\<lparr>scull_message_queue := m\<rparr>) = capacity s"
  "capacity (s\<lparr>head := p\<rparr>) = capacity s"
  "capacity (s\<lparr>end_ptr := p\<rparr>) = capacity s"
  by (simp_all add: capacity_def)

lemma elem_size_upd [simp]:
  "elem_size (s\<lparr>writer := w\<rparr>) = elem_size s"
  "elem_size (s\<lparr>reader := r\<rparr>) = elem_size s"
  "elem_size (s\<lparr>scull_message_queue := m\<rparr>) = elem_size s"
  "elem_size (s\<lparr>head := p\<rparr>) = elem_size s"
  "elem_size (s\<lparr>end_ptr := p\<rparr>) = elem_size s"
  by (simp_all add: elem_size_def)

lemma valid_params_upd [simp]:
  "valid_params (s\<lparr>writer := w\<rparr>) = valid_params s"
  "valid_params (s\<lparr>reader := r\<rparr>) = valid_params s"
  "valid_params (s\<lparr>scull_message_queue := m\<rparr>) = valid_params s"
  "valid_params (s\<lparr>head := p\<rparr>) = valid_params s"
  "valid_params (s\<lparr>end_ptr := p\<rparr>) = valid_params s"
  by (simp_all add: valid_params_def)

lemma slot_of_upd [simp]:
  "slot_of (s\<lparr>writer := w\<rparr>) = slot_of s"
  "slot_of (s\<lparr>reader := r\<rparr>) = slot_of s"
  "slot_of (s\<lparr>scull_message_queue := m\<rparr>) = slot_of s"
  "slot_of (s\<lparr>head := p\<rparr>) = slot_of s"
  "slot_of (s\<lparr>end_ptr := p\<rparr>) = slot_of s"
  by (simp_all add: slot_of_def fun_eq_iff)

lemma slot_length_upd [simp]:
  "slot_length (s\<lparr>writer := w\<rparr>) = slot_length s"
  "slot_length (s\<lparr>reader := r\<rparr>) = slot_length s"
  "slot_length (s\<lparr>head := p\<rparr>) = slot_length s"
  "slot_length (s\<lparr>end_ptr := p\<rparr>) = slot_length s"
  by (simp_all add: slot_length_def fun_eq_iff)

lemma slot_record_upd [simp]:
  "slot_record (s\<lparr>writer := w\<rparr>) = slot_record s"
  "slot_record (s\<lparr>reader := r\<rparr>) = slot_record s"
  "slot_record (s\<lparr>head := p\<rparr>) = slot_record s"
  "slot_record (s\<lparr>end_ptr := p\<rparr>) = slot_record s"
  by (simp_all add: slot_record_def fun_eq_iff)

lemma filled_props:
  assumes "queue_inv s" "k \<in> set (filled s)"
  shows "k < capacity s" and "slot_length s k \<le> elem_size s"
proof -
  have "0 < capacity s" using assms(1) capacity_bound by (simp add: queue_inv_def)
  then show "k < capacity s" using assms(2) by (auto simp: filled_def)
  show "slot_length s k \<le> elem_size s"
    using assms by (simp add: queue_inv_def list_all_iff)
qed


lemma clamp_min: "(if (n::nat) > e then e else n) = min n e"
  by simp

lemma scull_write_locked_ok:
  assumes v: "valid_params s" and r: "reader s < 2 ^ 31"
    and c: "c = min count (elem_size s)" and src: "c \<le> length buf"
  shows "scull_write_locked dp sp buf count s =
           Write_Returns (int c)
            (s\<lparr>scull_message_queue :=
                 store_ssize (store_bytes (scull_message_queue s) dp (take c buf)) sp c,
               end_ptr := ((end_ptr s + slot_bytes s) mod 2 ^ 64) mod region_bytes s,
               reader := Suc (reader s)\<rparr>)"
proof -
  have e: "size_t_of_int (scull_fifo_elemsz s) = elem_size s" by (rule size_t_of_elemsz [OF v])
  have cp: "copy_from_user buf c = (0, take c buf)" using src by (simp add: copy_from_user_def)
  have c63: "c < 2 ^ 63" using elem_size_bound [OF v] c by simp
  have reg: "region_bytes s \<noteq> 0" using region_bytes_pos [OF v] by simp
  show ?thesis
    unfolding scull_write_locked_def e clamp_min c [symmetric]
    by (simp add: cp reg ssize_small [OF c63] up_small [OF r])
qed

lemma scull_write_ok:
  assumes v: "valid_params s" and free: "0 < writer s" and r: "reader s < 2 ^ 31"
    and c: "c = min count (elem_size s)" and src: "c \<le> length buf"
  shows "scull_write quiet buf count s =
           Write_Returns (int c)
            (s\<lparr>writer := writer s - 1,
               scull_message_queue :=
                 store_ssize (store_bytes (scull_message_queue s) (end_ptr s + sizeof_ssize_t) (take c buf))
                   (end_ptr s) c,
               end_ptr := ((end_ptr s + slot_bytes s) mod 2 ^ 64) mod region_bytes s,
               reader := Suc (reader s)\<rparr>)"
proof -
  have "scull_write quiet buf count s =
        scull_write_locked (end_ptr s + sizeof_ssize_t) (end_ptr s) buf count (s\<lparr>writer := writer s - 1\<rparr>)"
    using free
    by (simp add: scull_write_def scull_write_resume_def quiet_def down_interruptible_def)
  also have "\<dots> = Write_Returns (int c)
            ((s\<lparr>writer := writer s - 1\<rparr>)\<lparr>scull_message_queue :=
                 store_ssize (store_bytes (scull_message_queue (s\<lparr>writer := writer s - 1\<rparr>)) (end_ptr s + sizeof_ssize_t) (take c buf))
                   (end_ptr s) c,
               end_ptr := ((end_ptr (s\<lparr>writer := writer s - 1\<rparr>) + slot_bytes (s\<lparr>writer := writer s - 1\<rparr>)) mod 2 ^ 64) mod region_bytes (s\<lparr>writer := writer s - 1\<rparr>),
               reader := Suc (reader (s\<lparr>writer := writer s - 1\<rparr>))\<rparr>)"
    using v r c src by (intro scull_write_locked_ok) simp_all
  finally show ?thesis by simp
qed

lemma write_effect:
  assumes inv: "queue_inv s" and free: "0 < writer s"
    and c: "c = min count (elem_size s)" and src: "c \<le> length buf"
  defines "s' \<equiv> s\<lparr>writer := writer s - 1,
               scull_message_queue :=
                 store_ssize (store_bytes (scull_message_queue s) (end_ptr s + sizeof_ssize_t) (take c buf))
                   (end_ptr s) c,
               end_ptr := ((end_ptr s + slot_bytes s) mod 2 ^ 64) mod region_bytes s,
               reader := Suc (reader s)\<rparr>"
  shows "queue_inv s'" and "pending s' = pending s @ [take c buf]"
proof -
  let ?sl = "slot_bytes s" and ?cap = "capacity s" and ?e = "elem_size s"
  let ?m = "scull_message_queue s"
  define j where "j = slot_of s (end_ptr s)"
  define data where "data = take c buf"
  have v: "valid_params s" using inv by (simp add: queue_inv_def)
  have sl: "?sl = sizeof_ssize_t + ?e" by (rule slot_bytes_eq [OF v])
  have al: "end_ptr s mod ?sl = 0" and lt: "end_ptr s < region_bytes s"
    using inv by (simp_all add: queue_inv_def)
  have ep: "end_ptr s = j * ?sl" and j: "j < ?cap"
    using cursor_slot [OF v al lt] by (simp_all add: j_def)
  have ld: "length data = c" using src by (simp add: data_def)
  have le: "length data \<le> ?e" using c by (simp add: ld)
  have lm: "length ?m = ?cap * ?sl" using inv by (simp add: queue_inv_def sl)
  have "Suc j * ?sl \<le> ?cap * ?sl" using j by (intro mult_le_mono1) simp
  then have fit: "Suc j * ?sl \<le> length ?m" by (simp add: lm)
  have m': "scull_message_queue s' =
      store_ssize (store_bytes ?m (j * ?sl + sizeof_ssize_t) data) (j * ?sl) (length data)"
    using src by (simp add: s'_def ep [symmetric] data_def min_absorb2)
  note put = put_slot [OF sl le fit, folded m']
  have e64: "?e < 2 ^ 64" using elem_size_bound [OF v] by simp
  have sl' [simp]: "slot_bytes s' = ?sl" by (simp add: s'_def)
  have len_j: "slot_length s' j = c"
    using put(3) [OF e64] by (simp add: slot_length_def ld)
  have rec_j: "slot_record s' j = data"
    using put(4) by (simp add: slot_record_def len_j ld)
  have len_other: "slot_length s' k = slot_length s k" if "k \<noteq> j" for k
    using put(2) [OF that, of 0 sizeof_ssize_t] sl
    by (simp add: slot_length_def load_ssize_def)
  have rec_other: "slot_record s' k = slot_record s k"
    if "k \<noteq> j" "slot_length s k \<le> ?e" for k
    using put(2) [OF that(1), of sizeof_ssize_t "slot_length s k"] sl that(2)
    by (simp add: slot_record_def len_other [OF that(1)])
  have sum: "writer s + reader s = ?cap" using inv by (simp add: queue_inv_def)
  then have rlt: "reader s < ?cap" using free by simp
  have jr: "j = (slot_of s (head s) + reader s) mod ?cap"
    using inv by (simp add: queue_inv_def j_def)
  have fl: "filled s' = filled s @ [j]"
    by (simp add: filled_def s'_def jr)
  have notj: "k \<noteq> j" if "k \<in> set (filled s)" for k
    using that mod_shift_distinct [OF _ rlt] by (auto simp: filled_def jr)
  have old: "slot_length s k \<le> ?e" if "k \<in> set (filled s)" for k
    using filled_props(2) [OF inv that] .
  show "pending s' = pending s @ [take c buf]"
    using notj old by (simp add: pending_def fl rec_j rec_other data_def)
  have adv: "end_ptr s' mod ?sl = 0" "end_ptr s' < region_bytes s"
      "slot_of s (end_ptr s') = (j + 1) mod ?cap"
    using cursor_advance [OF v al lt] by (simp_all add: s'_def j_def)
  have "(j + 1) mod ?cap = (slot_of s (head s) + Suc (reader s)) mod ?cap"
    by (simp add: jr mod_Suc_eq)
  then have endslot: "slot_of s (end_ptr s') = (slot_of s (head s') + reader s') mod ?cap"
    using adv(3) by (simp add: s'_def)
  have all: "list_all (\<lambda>k. slot_length s' k \<le> ?e) (filled s')"
    using notj old c by (auto simp: fl list_all_iff len_j len_other)
  have hd: "head s' mod ?sl = 0" "head s' < region_bytes s"
    using inv by (simp_all add: queue_inv_def s'_def)
  have "length (scull_message_queue s') = ?cap * (sizeof_ssize_t + ?e)"
    using put(1) lm sl by simp
  moreover have "writer s' + reader s' = ?cap" using sum free by (simp add: s'_def)
  moreover have [simp]: "valid_params s' = valid_params s" "capacity s' = ?cap"
    "elem_size s' = ?e" "region_bytes s' = region_bytes s" "slot_of s' = slot_of s"
    by (simp_all add: s'_def)
  ultimately show "queue_inv s'"
    using v adv(1,2) hd endslot all by (simp add: queue_inv_def)
qed

lemma scull_read_locked_ok:
  assumes v: "valid_params s" and w: "writer s < 2 ^ 31"
    and n: "n = min count dataSize" and n63: "n < 2 ^ 63" and dst: "n \<le> buf"
    and fit: "dp + n \<le> length (scull_message_queue s)"
  shows "scull_read_locked dp dataSize buf count s =
           Read_Returns (int n) (load_bytes (scull_message_queue s) dp n)
            (s\<lparr>head := ((head s + slot_bytes s) mod 2 ^ 64) mod region_bytes s,
               writer := Suc (writer s)\<rparr>)"
proof -
  have cp: "copy_to_user buf (load_bytes (scull_message_queue s) dp n) n
            = (0, load_bytes (scull_message_queue s) dp n)"
    using dst by (simp add: copy_to_user_def load_bytes_def min_absorb1)
  have reg: "region_bytes s \<noteq> 0" using region_bytes_pos [OF v] by simp
  show ?thesis
    unfolding scull_read_locked_def clamp_min n [symmetric]
    using fit by (simp add: cp reg ssize_small [OF n63] up_small [OF w])
qed

lemma scull_read_ok:
  assumes v: "valid_params s" and avail: "0 < reader s" and w: "writer s < 2 ^ 31"
    and n: "n = min count (load_ssize (scull_message_queue s) (head s))"
    and n63: "n < 2 ^ 63" and dst: "n \<le> buf"
    and fit: "head s + sizeof_ssize_t + n \<le> length (scull_message_queue s)"
  shows "scull_read quiet buf count s =
           Read_Returns (int n) (load_bytes (scull_message_queue s) (head s + sizeof_ssize_t) n)
            (s\<lparr>reader := reader s - 1,
               head := ((head s + slot_bytes s) mod 2 ^ 64) mod region_bytes s,
               writer := Suc (writer s)\<rparr>)"
proof -
  let ?t = "s\<lparr>reader := reader s - 1\<rparr>"
  have "scull_read quiet buf count s =
        scull_read_locked (head s + sizeof_ssize_t) (load_ssize (scull_message_queue s) (head s))
          buf count ?t"
    using avail
    by (simp add: scull_read_def scull_read_resume_def quiet_def down_interruptible_def)
  also have "\<dots> = Read_Returns (int n) (load_bytes (scull_message_queue ?t) (head s + sizeof_ssize_t) n)
            (?t\<lparr>head := ((head ?t + slot_bytes ?t) mod 2 ^ 64) mod region_bytes ?t,
               writer := Suc (writer ?t)\<rparr>)"
    using v w n n63 dst fit by (intro scull_read_locked_ok) simp_all
  finally show ?thesis by simp
qed

lemma upt_shift: "0 < r \<Longrightarrow> [0..<r] = 0 # map Suc [0..<r - 1]"
  by (cases r) (simp_all add: upt_conv_Cons map_Suc_upt del: upt_Suc)

lemma read_effect:
  assumes inv: "queue_inv s" and avail: "0 < reader s"
  defines "s' \<equiv> s\<lparr>reader := reader s - 1,
               head := ((head s + slot_bytes s) mod 2 ^ 64) mod region_bytes s,
               writer := Suc (writer s)\<rparr>"
  defines "h \<equiv> slot_of s (head s)"
  shows "queue_inv s'" and "pending s = slot_record s h # pending s'"
    and "load_ssize (scull_message_queue s) (head s) = slot_length s h"
    and "slot_length s h \<le> elem_size s"
    and "length (slot_record s h) = slot_length s h"
    and "\<And>n. n \<le> slot_length s h \<Longrightarrow>
           load_bytes (scull_message_queue s) (head s + sizeof_ssize_t) n = take n (slot_record s h)"
    and "head s + sizeof_ssize_t + slot_length s h \<le> length (scull_message_queue s)"
proof -
  let ?sl = "slot_bytes s" and ?cap = "capacity s" and ?e = "elem_size s"
  let ?m = "scull_message_queue s"
  have v: "valid_params s" using inv by (simp add: queue_inv_def)
  have sl: "?sl = sizeof_ssize_t + ?e" by (rule slot_bytes_eq [OF v])
  have al: "head s mod ?sl = 0" and lt: "head s < region_bytes s"
    using inv by (simp_all add: queue_inv_def)
  have hp: "head s = h * ?sl" and h: "h < ?cap"
    using cursor_slot [OF v al lt] by (simp_all add: h_def)
  have fl: "filled s = h # map (\<lambda>i. (h + Suc i) mod ?cap) [0..<reader s - 1]"
    using h by (simp add: filled_def upt_shift [OF avail] h_def [symmetric] comp_def)
  have adv: "head s' mod ?sl = 0" "head s' < region_bytes s"
      "slot_of s (head s') = (h + 1) mod ?cap"
    using cursor_advance [OF v al lt] by (simp_all add: s'_def h_def)
  have fl': "filled s' = map (\<lambda>i. (h + Suc i) mod ?cap) [0..<reader s - 1]"
    by (simp add: filled_def s'_def adv(3) [unfolded s'_def, simplified] mod_Suc_eq mod_add_left_eq)
  have [simp]: "slot_record s' = slot_record s" "slot_length s' = slot_length s"
    by (simp_all add: s'_def)
  show "pending s = slot_record s h # pending s'"
    by (simp add: pending_def fl fl')
  show "load_ssize ?m (head s) = slot_length s h"
    by (simp add: slot_length_def hp [symmetric])
  have "h \<in> set (filled s)" by (simp add: fl)
  then show hl: "slot_length s h \<le> ?e" by (rule filled_props(2) [OF inv])
  have lm: "length ?m = ?cap * ?sl" using inv by (simp add: queue_inv_def sl)
  have "Suc h * ?sl \<le> ?cap * ?sl" using h by (intro mult_le_mono1) simp
  then have inside: "h * ?sl + sizeof_ssize_t + slot_length s h \<le> length ?m"
    using hl sl by (simp add: lm)
  then show "length (slot_record s h) = slot_length s h"
    by (simp add: slot_record_def load_bytes_def)
  show "head s + sizeof_ssize_t + slot_length s h \<le> length ?m"
    using inside by (simp add: hp [symmetric])
  show "load_bytes ?m (head s + sizeof_ssize_t) n = take n (slot_record s h)"
    if "n \<le> slot_length s h" for n
    using that by (simp add: slot_record_def load_bytes_def hp [symmetric] min_absorb2)
  have sum: "writer s + reader s = ?cap" using inv by (simp add: queue_inv_def)
  have er: "slot_of s (end_ptr s) = (h + reader s) mod ?cap"
    using inv by (simp add: queue_inv_def h_def)
  have "h + reader s = (h + 1) + (reader s - 1)" using avail by simp
  then have "(h + reader s) mod ?cap = ((h + 1) mod ?cap + (reader s - 1)) mod ?cap"
    by (simp only: mod_add_left_eq)
  then have endslot: "slot_of s (end_ptr s') = (slot_of s (head s') + reader s') mod ?cap"
    using er adv(3) by (simp add: s'_def)
  have "set (filled s') \<subseteq> set (filled s)" by (auto simp: fl fl')
  then have all: "list_all (\<lambda>k. slot_length s' k \<le> ?e) (filled s')"
    using filled_props(2) [OF inv] by (auto simp: list_all_iff)
  have ed: "end_ptr s' mod ?sl = 0" "end_ptr s' < region_bytes s"
    using inv by (simp_all add: queue_inv_def s'_def)
  have "length (scull_message_queue s') = ?cap * (sizeof_ssize_t + ?e)"
    using lm sl by (simp add: s'_def)
  moreover have "writer s' + reader s' = ?cap" using sum avail by (simp add: s'_def)
  moreover have [simp]: "valid_params s' = valid_params s" "capacity s' = ?cap"
    "elem_size s' = ?e" "region_bytes s' = region_bytes s" "slot_of s' = slot_of s"
    "slot_bytes s' = ?sl"
    by (simp_all add: s'_def)
  ultimately show "queue_inv s'"
    using v adv(1,2) ed endslot all by (simp add: queue_inv_def)
qed


lemma inv_bounds:
  assumes "queue_inv s"
  shows "valid_params s" and "writer s + reader s = capacity s"
    and "reader s < 2 ^ 31" and "writer s < 2 ^ 31"
proof -
  show v: "valid_params s" and sum: "writer s + reader s = capacity s"
    using assms by (simp_all add: queue_inv_def)
  show "reader s < 2 ^ 31" "writer s < 2 ^ 31"
    using capacity_bound [OF v] sum by simp_all
qed

lemma write_step:
  assumes inv: "queue_inv s" and room: "reader s < capacity s"
    and src: "min count (elem_size s) \<le> length buf"
  shows "\<exists>s'. scull_write quiet buf count s = Write_Returns (int (min count (elem_size s))) s'
          \<and> queue_inv s' \<and> pending s' = pending s @ [take (min count (elem_size s)) buf]
          \<and> capacity s' = capacity s \<and> elem_size s' = elem_size s
          \<and> slot_bytes s' = slot_bytes s
          \<and> head s' = head s \<and> writer s' = writer s - 1 \<and> reader s' = reader s + 1
          \<and> end_ptr s' = ((end_ptr s + slot_bytes s) mod 2 ^ 64) mod region_bytes s"
proof -
  note b = inv_bounds [OF inv]
  have free: "0 < writer s" using b(2) room by simp
  show ?thesis
    using scull_write_ok [OF b(1) free b(3) refl src] write_effect [OF inv free refl src]
    by simp
qed

lemma read_step:
  assumes inv: "queue_inv s" and avail: "0 < reader s"
    and dst: "min count (length (hd (pending s))) \<le> buf"
  shows "\<exists>s'. scull_read quiet buf count s =
            Read_Returns (int (min count (length (hd (pending s)))))
              (take count (hd (pending s))) s'
          \<and> queue_inv s' \<and> pending s = hd (pending s) # pending s'
          \<and> capacity s' = capacity s \<and> elem_size s' = elem_size s
          \<and> slot_bytes s' = slot_bytes s
          \<and> end_ptr s' = end_ptr s \<and> reader s' = reader s - 1 \<and> writer s' = writer s + 1
          \<and> head s' = ((head s + slot_bytes s) mod 2 ^ 64) mod region_bytes s"
proof -
  note b = inv_bounds [OF inv]
  note e = read_effect [OF inv avail]
  let ?h = "slot_of s (head s)"
  let ?n = "min count (slot_length s ?h)"
  have hd: "hd (pending s) = slot_record s ?h" using e(2) by simp
  have n63: "?n < 2 ^ 63" using e(4) elem_size_bound [OF b(1)] by simp
  have n: "?n = min count (load_ssize (scull_message_queue s) (head s))" by (simp add: e(3))
  have dst': "?n \<le> buf" using dst by (simp add: hd e(5))
  have out: "load_bytes (scull_message_queue s) (head s + sizeof_ssize_t) ?n
             = take count (slot_record s ?h)"
    using e(6) [of ?n] e(5) by (simp add: min_def)
  have fit: "head s + sizeof_ssize_t + ?n \<le> length (scull_message_queue s)"
    using e(7) by simp
  show ?thesis
    using scull_read_ok [OF b(1) avail b(4) n n63 dst' fit] e(1) e(2)
    by (simp add: hd e(5) out)
qed


section \<open>Evaluation of concrete calls\<close>

lemmas eval_defs = scull_init_module_def scull_statics_def zeroed_def kmalloc_def sema_init_def
  uint_of_int_def size_t_of_int_def sizeof_ssize_t_def Let_def
  scull_read_def scull_read_resume_def scull_read_locked_def
  scull_write_def scull_write_resume_def scull_write_locked_def
  down_interruptible_def up_def copy_to_user_def copy_from_user_def
  load_ssize_def store_ssize_def load_bytes_def store_bytes_def
  slot_bytes_def region_bytes_def ssize_t_of_size_t_def
  quiet_def sem_interrupted_def mutex_interrupted_def
  ERESTARTSYS_def EFAULT_def ENOTTY_def ENOMEM_def

lemmas inv_defs = queue_inv_def valid_params_def capacity_def elem_size_def filled_def
  slot_of_def slot_length_def

lemma le_bytes_8:
  "le_bytes 8 v = [of_nat (v mod 256), of_nat (v div 256 mod 256),
     of_nat (v div 256 div 256 mod 256), of_nat (v div 256 div 256 div 256 mod 256),
     of_nat (v div 256 div 256 div 256 div 256 mod 256),
     of_nat (v div 256 div 256 div 256 div 256 div 256 mod 256),
     of_nat (v div 256 div 256 div 256 div 256 div 256 div 256 mod 256),
     of_nat (v div 256 div 256 div 256 div 256 div 256 div 256 div 256 mod 256)]"
proof -
  have e: "(8::nat) = Suc (Suc (Suc (Suc (Suc (Suc (Suc (Suc 0)))))))" by simp
  show ?thesis unfolding e by (simp only: le_bytes.simps)
qed

lemma zeros_12: "map (\<lambda>a. 0 :: byte) [0..<12] = [0,0,0,0,0,0,0,0,0,0,0,0]"
  by code_simp

lemma zeros_24:
  "map (\<lambda>a. 0 :: byte) [0..<24] = [0,0,0,0,0,0,0,0,0,0,0,0, 0,0,0,0,0,0,0,0,0,0,0,0]"
  by code_simp


lemma fresh_4_1:
  "fresh_queue 4 1 =
     \<lparr>scull_major = 240, scull_minor = 0, scull_fifo_elemsz = 4, scull_fifo_size = 1,
      writer = 1, reader = 0, scull_message_queue = [0,0,0,0,0,0,0,0,0,0,0,0],
      queue_allocated = True, head = 0, end_ptr = 0, cdev_live = True,
      chrdev_registered = True\<rparr>"
  by (simp add: fresh_queue_def eval_defs zeros_12)

lemma fresh_4_2:
  "fresh_queue 4 2 =
     \<lparr>scull_major = 240, scull_minor = 0, scull_fifo_elemsz = 4, scull_fifo_size = 2,
      writer = 2, reader = 0,
      scull_message_queue = [0,0,0,0,0,0,0,0,0,0,0,0, 0,0,0,0,0,0,0,0,0,0,0,0],
      queue_allocated = True, head = 0, end_ptr = 0, cdev_live = True,
      chrdev_registered = True\<rparr>"
  by (simp add: fresh_queue_def eval_defs zeros_24)


lemma fresh_4_1_inv: "queue_inv (fresh_queue 4 1)"
  by (simp add: fresh_4_1 inv_defs eval_defs)

lemma fresh_4_2_inv: "queue_inv (fresh_queue 4 2)"
  by (simp add: fresh_4_2 inv_defs eval_defs)


section \<open>Initialisation, short reads and the slot count\<close>

lemma kmalloc_size:
  assumes "valid_params s"
  shows "(size_t_of_int (scull_fifo_size s)
            * ((size_t_of_int (scull_fifo_elemsz s) + sizeof_ssize_t) mod 2 ^ 64)) mod 2 ^ 64
         = capacity s * (sizeof_ssize_t + elem_size s)"
  using region_bytes_eq [OF assms] slot_bytes_eq [OF assms]
  by (simp add: region_bytes_def slot_bytes_def add.commute)

lemma sema_init_size: "valid_params s \<Longrightarrow> sema_init (scull_fifo_size s) = capacity s"
  by (auto simp: sema_init_def uint_of_int_def valid_params_def capacity_def)

lemma write_sem_interrupt_no_effect:
  "writer s = 0 \<Longrightarrow>
   scull_write sem_interrupted buf count s = Write_Returns (- ERESTARTSYS) s"
  by (simp add: scull_write_def scull_write_resume_def down_interruptible_def
      sem_interrupted_def)

lemma init_success:
  assumes "valid_params s" and "0 \<le> chrdev_result env" and "cdev_add_result env = 0"
    and "kmalloc_result env = Some f"
  shows "\<exists>s'. scull_init_module env s = (0, s') \<and>
           scull_fifo_size s' = scull_fifo_size s \<and>
           scull_fifo_elemsz s' = scull_fifo_elemsz s \<and>
           length (scull_message_queue s') = capacity s * (sizeof_ssize_t + elem_size s) \<and>
           writer s' = capacity s \<and> reader s' = 0 \<and> head s' = 0 \<and> end_ptr s' = 0"
  using assms(2,3,4) kmalloc_size [OF assms(1)] sema_init_size [OF assms(1)]
  by (simp add: scull_init_module_def kmalloc_def Let_def sema_init_def uint_of_int_def)

lemma init_inv:
  assumes "valid_params s" and "0 \<le> chrdev_result env" and "cdev_add_result env = 0"
    and "kmalloc_result env = Some f"
  shows "queue_inv (snd (scull_init_module env s))"
proof -
  from init_success [OF assms] obtain s' where
    i: "scull_init_module env s = (0, s')"
    and p: "scull_fifo_size s' = scull_fifo_size s" "scull_fifo_elemsz s' = scull_fifo_elemsz s"
    and l: "length (scull_message_queue s') = capacity s * (sizeof_ssize_t + elem_size s)"
    and c: "writer s' = capacity s" "reader s' = 0" "head s' = 0" "end_ptr s' = 0"
    by blast
  have v: "valid_params s'" using assms(1) p by (simp add: valid_params_def)
  have q: "capacity s' = capacity s" "elem_size s' = elem_size s"
    using p by (simp_all add: capacity_def elem_size_def)
  have "queue_inv s'"
    using v l c region_bytes_pos [OF v] capacity_bound [OF v]
    by (simp add: queue_inv_def q filled_def slot_of_def)
  then show ?thesis by (simp add: i)
qed

lemma usual_fields:
  "IOC_TYPE (0x6B01 :: 32 word) = 0x6B" "IOC_NR (0x6B01 :: 32 word) = 1"
  "IOC_SIZE (0x6B01 :: 32 word) = 0"
  "IOC_TYPE (0x6C01 :: 32 word) = 0x6C" "IOC_NR (0x6B02 :: 32 word) = 2"
  "IOC_TYPE (0x6B02 :: 32 word) = 0x6B"
  by (simp_all add: IOC_TYPE_def IOC_NR_def IOC_SIZE_def)

lemma one_pending_eq:
  "one_pending =
     \<lparr>scull_major = 240, scull_minor = 0, scull_fifo_elemsz = 4, scull_fifo_size = 2,
      writer = 1, reader = 1,
      scull_message_queue = [3,0,0,0,0,0,0,0,97,98,99,0, 0,0,0,0,0,0,0,0,0,0,0,0],
      queue_allocated = True, head = 0, end_ptr = 12, cdev_live = True,
      chrdev_registered = True\<rparr>"
  by (simp add: one_pending_def fresh_4_2)

lemma partial_read:
  assumes "queue_inv s" and "0 < reader s"
    and "count < length (hd (pending s))" and "count \<le> buf"
  shows "\<exists>s'. scull_read quiet buf count s =
              Read_Returns (int count) (take count (hd (pending s))) s' \<and>
            head s' = ((head s + slot_bytes s) mod 2 ^ 64) mod region_bytes s \<and>
            slot_of s' (head s') = (slot_of s (head s) + 1) mod capacity s \<and>
            pending s' = tl (pending s)"
proof -
  have m: "min count (length (hd (pending s))) = count" using assms(3) by simp
  have dst: "min count (length (hd (pending s))) \<le> buf" using assms(4) by (simp add: m)
  from read_step [OF assms(1,2) dst] obtain s' where
    r: "scull_read quiet buf count s = Read_Returns (int count) (take count (hd (pending s))) s'"
    and p: "pending s = hd (pending s) # pending s'"
    and h: "head s' = ((head s + slot_bytes s) mod 2 ^ 64) mod region_bytes s"
    and par: "slot_bytes s' = slot_bytes s"
    unfolding m by blast
  have v: "valid_params s" and al: "head s mod slot_bytes s = 0" and lt: "head s < region_bytes s"
    using assms(1) by (simp_all add: queue_inv_def)
  have "slot_of s (head s') = (slot_of s (head s) + 1) mod capacity s"
    unfolding h by (rule cursor_advance(3) [OF v al lt])
  moreover have "slot_of s' = slot_of s"
    using par by (simp add: slot_of_def fun_eq_iff)
  moreover have "pending s' = tl (pending s)" using p by (metis list.sel(3))
  ultimately show ?thesis using r h by auto
qed

lemma write_keeps_slot_sum:
  assumes "scull_write env buf count s = Write_Returns r s'" and "reader s < 2 ^ 31"
  shows "writer s' + reader s' = writer s + reader s"
  using assms
  by (auto simp: scull_write_def scull_write_resume_def scull_write_locked_def
      down_interruptible_def up_small Let_def
      split: if_splits prod.splits)

lemma read_slot_sum:
  assumes "scull_read env buf count s = Read_Returns r out s'" and "writer s < 2 ^ 31"
  shows "writer s' + reader s' = (if reader s = 0 then writer s + reader s + 1
                                   else writer s + reader s)"
  using assms
  by (auto simp: scull_read_def scull_read_resume_def scull_read_locked_def
      down_interruptible_def up_small Let_def
      split: if_splits prod.splits)

section \<open>The claims\<close>

text \<open>
  C1 (slot accounting). After every return of a read or a write, the error returns too,
  the counts of the two semaphores should add up to the capacity. \<open>scull_read\<close> does
  not keep this: when a signal ends its sleep on the semaphore \<open>reader\<close>, no permit was
  taken, yet line 88 adds one to \<open>writer\<close>. On a fresh queue of two slots the sum is
  2 before the call and 3 after it. Every other return keeps the sum
  (\<open>write_keeps_slot_sum\<close>, \<open>read_slot_sum\<close>).
\<close>

theorem read_interrupt_breaks_slot_sum:
  "writer (fresh_queue 4 2) + reader (fresh_queue 4 2) = capacity (fresh_queue 4 2) \<and>
   scull_read sem_interrupted 4 4 (fresh_queue 4 2) =
     Read_Returns (- ERESTARTSYS) [] ((fresh_queue 4 2)\<lparr>writer := 3\<rparr>) \<and>
   writer ((fresh_queue 4 2)\<lparr>writer := 3\<rparr>) + reader ((fresh_queue 4 2)\<lparr>writer := 3\<rparr>)
     = capacity ((fresh_queue 4 2)\<lparr>writer := 3\<rparr>) + 1"
  by (simp add: fresh_4_2 capacity_def eval_defs)

text \<open>
  C2 (rollback after a failed transfer). A call whose transfer fails should give back the
  permit it took, so that its own semaphore counts what it counted before. The code gives
  a permit to the other semaphore instead: a write whose source cannot be read returns
  \<open>-EFAULT\<close> with \<open>writer\<close> one lower and \<open>reader\<close> one higher than before the call,
  and a read whose destination cannot be written returns \<open>-EFAULT\<close> with \<open>reader\<close> one
  lower and \<open>writer\<close> one higher. The cursors stay where they were.
\<close>

theorem fault_releases_other_semaphore:
  "scull_write quiet [] 1 (fresh_queue 4 2) =
     Write_Returns (- EFAULT) ((fresh_queue 4 2)\<lparr>writer := 1, reader := 1\<rparr>) \<and>
   scull_write quiet [97, 98, 99] 3 (fresh_queue 4 2) = Write_Returns 3 one_pending \<and>
   scull_read quiet 0 1 one_pending =
     Read_Returns (- EFAULT) [] (one_pending\<lparr>reader := 0, writer := 2\<rparr>)"
  by (simp add: one_pending_eq fresh_4_2 eval_defs le_bytes_8)

text \<open>
  C3 (interruption). An interrupted acquire should leave both counters and both cursors
  as they were. In the code, a read whose sleep on its semaphore is interrupted adds a
  permit to \<open>writer\<close>; a write or a read that holds its permit and whose sleep on the
  mutex is interrupted keeps that permit taken and adds one to the other semaphore. Only
  a write interrupted on its semaphore changes nothing (\<open>write_sem_interrupt_no_effect\<close>).
\<close>

theorem interrupt_moves_permits:
  "scull_read sem_interrupted 4 4 (fresh_queue 4 2) =
     Read_Returns (- ERESTARTSYS) [] ((fresh_queue 4 2)\<lparr>writer := 3\<rparr>) \<and>
   scull_write mutex_interrupted [97] 1 (fresh_queue 4 2) =
     Write_Returns (- ERESTARTSYS) ((fresh_queue 4 2)\<lparr>writer := 1, reader := 1\<rparr>) \<and>
   scull_read mutex_interrupted 4 4 one_pending =
     Read_Returns (- ERESTARTSYS) [] (one_pending\<lparr>reader := 0, writer := 2\<rparr>)"
  by (simp add: one_pending_eq fresh_4_2 eval_defs)



text \<open>
  C5 (truncation). On an empty queue, a write of more than \<open>elem_size\<close> bytes whose
  first \<open>elem_size\<close> bytes can be read returns \<open>elem_size\<close>, and the read that follows,
  asking for at least \<open>elem_size\<close> bytes into a buffer that large, returns \<open>elem_size\<close>
  and exactly the first \<open>elem_size\<close> bytes of the source.
\<close>

theorem oversize_write_truncates:
  assumes "queue_inv s" and "reader s = 0" and "elem_size s < count"
    and "elem_size s \<le> length buf" and "elem_size s \<le> rcount" and "elem_size s \<le> rbuf"
  shows "\<exists>s1 s2.
           scull_write quiet buf count s = Write_Returns (int (elem_size s)) s1 \<and>
           scull_read quiet rbuf rcount s1 =
             Read_Returns (int (elem_size s)) (take (elem_size s) buf) s2"
proof -
  let ?e = "elem_size s"
  have m: "min count ?e = ?e" using assms(3) by simp
  have room: "reader s < capacity s"
    using assms(1,2) capacity_bound [of s] by (simp add: queue_inv_def)
  have e0: "pending s = []" using assms(2) by (simp add: pending_def filled_def)
  from write_step [OF assms(1) room, of count buf] assms(4) obtain s1 where
    w: "scull_write quiet buf count s = Write_Returns (int ?e) s1"
    and inv1: "queue_inv s1" and p1: "pending s1 = [take ?e buf]"
    and r1: "reader s1 = reader s + 1"
    unfolding m e0 by auto
  have hd1: "hd (pending s1) = take ?e buf" by (simp add: p1)
  have l: "length (hd (pending s1)) = ?e" using assms(4) by (simp add: p1)
  have avail: "0 < reader s1" by (simp add: r1)
  have dst: "min rcount (length (hd (pending s1))) \<le> rbuf" using assms(6) by (simp add: l)
  have "\<exists>s2. scull_read quiet rbuf rcount s1 =
          Read_Returns (int (min rcount (length (hd (pending s1)))))
            (take rcount (hd (pending s1))) s2"
    using read_step [OF inv1 avail dst] by blast
  then obtain s2 where
    "scull_read quiet rbuf rcount s1 =
       Read_Returns (int (min rcount ?e)) (take rcount (take ?e buf)) s2"
    unfolding l unfolding hd1 by blast
  moreover have "min rcount ?e = ?e" using assms(5) by simp
  moreover have "take rcount (take ?e buf) = take ?e buf" using assms(5) by (simp add: min_absorb2)
  ultimately have "scull_read quiet rbuf rcount s1 = Read_Returns (int ?e) (take ?e buf) s2"
    by simp
  with w show ?thesis by blast
qed

theorem oversize_write_truncates_witness:
  "queue_inv (fresh_queue 4 2) \<and> reader (fresh_queue 4 2) = 0 \<and>
   elem_size (fresh_queue 4 2) < 6 \<and>
   elem_size (fresh_queue 4 2) \<le> length [97, 98, 99, 100, 101, 102 :: byte] \<and>
   elem_size (fresh_queue 4 2) \<le> 10 \<and>
   (\<exists>s1 s2.
      scull_write quiet [97, 98, 99, 100, 101, 102] 6 (fresh_queue 4 2) = Write_Returns 4 s1 \<and>
      scull_read quiet 10 10 s1 = Read_Returns 4 [97, 98, 99, 100] s2)"
proof -
  have r: "reader (fresh_queue 4 2) = 0" by (simp add: fresh_4_2)
  have e: "elem_size (fresh_queue 4 2) = 4" by (simp add: fresh_4_2 elem_size_def)
  have c: "elem_size (fresh_queue 4 2) < 6" by (simp add: e)
  have b: "elem_size (fresh_queue 4 2) \<le> length [97, 98, 99, 100, 101, 102 :: byte]"
    by (simp add: e)
  have d: "elem_size (fresh_queue 4 2) \<le> 10" by (simp add: e)
  show ?thesis
    using r c b d oversize_write_truncates [OF fresh_4_2_inv r c b d d]
    by (simp add: e fresh_4_2_inv)
qed

text \<open>
  C6 (when read looks at the head slot). The length and the payload address of the head
  slot should be read once the permit and the mutex are held. The code reads both on
  entry, in lines 82 and 83, before the acquires of line 86. A reader that goes to sleep
  on the empty queue of one slot holds the length 0 of the empty slot; when a writer has
  stored "abc" and the reader continues, it returns 0 bytes and frees the slot, whereas a
  read that starts after the write returns the three bytes.
\<close>

theorem sleeping_reader_uses_stale_length:
  "scull_read quiet 4 4 (fresh_queue 4 1) = Read_Sleeps 8 0 \<and>
   scull_write quiet [97, 98, 99] 3 (fresh_queue 4 1) = Write_Returns 3 one_slot_abc \<and>
   scull_read_resume quiet 8 0 4 4 one_slot_abc =
     Read_Returns 0 [] (one_slot_abc\<lparr>reader := 0, writer := 1\<rparr>) \<and>
   scull_read quiet 4 4 one_slot_abc =
     Read_Returns 3 [97, 98, 99] (one_slot_abc\<lparr>reader := 0, writer := 1\<rparr>)"
  by (simp add: one_slot_abc_def fresh_4_1 eval_defs le_bytes_8)

text \<open>
  C7 (construction). With a positive capacity and a non-negative record size, and the
  device registered and added, \<open>scull_init_module\<close> either gets its memory and returns 0
  with a region of \<open>capacity\<close> slots of \<open>sizeof(ssize_t) + elem_size\<close> bytes,
  \<open>writer = capacity\<close>, \<open>reader = 0\<close> and both cursors at the start of the region; or
  the allocation fails and it returns \<open>-ENOMEM\<close> with the device removed and its number
  unregistered, so that no file operation can reach the queue.
\<close>

theorem init_constructs:
  assumes "valid_params s" and "0 \<le> chrdev_result env" and "cdev_add_result env = 0"
  shows "case kmalloc_result env of
           Some f \<Rightarrow>
             (\<exists>s'. scull_init_module env s = (0, s') \<and> queue_allocated s' \<and> cdev_live s' \<and>
                length (scull_message_queue s') = capacity s * (sizeof_ssize_t + elem_size s) \<and>
                writer s' = capacity s \<and> reader s' = 0 \<and> head s' = 0 \<and> end_ptr s' = 0)
         | None \<Rightarrow>
             (\<exists>s'. scull_init_module env s = (- ENOMEM, s') \<and>
                \<not> queue_allocated s' \<and> \<not> cdev_live s' \<and> \<not> chrdev_registered s')"
proof (cases "kmalloc_result env")
  case None
  then show ?thesis
    using assms(2,3) by (simp add: scull_init_module_def kmalloc_def scull_cleanup_module_def Let_def)
next
  case (Some f)
  have v: "valid_params (s\<lparr>scull_major := chrdev_major env\<rparr>)" using assms(1) by (simp add: valid_params_def)
  show ?thesis
    using assms(2,3) Some kmalloc_size [OF assms(1)] sema_init_size [OF assms(1)]
    by (simp add: scull_init_module_def kmalloc_def Let_def sema_init_def uint_of_int_def)
qed

theorem init_constructs_witness:
  "valid_params (scull_statics 0 0 4 2) \<and>
   0 \<le> chrdev_result zeroed \<and> cdev_add_result zeroed = 0 \<and>
   (\<exists>s'. scull_init_module zeroed (scull_statics 0 0 4 2) = (0, s') \<and>
      queue_allocated s' \<and> cdev_live s' \<and> length (scull_message_queue s') = 24 \<and>
      writer s' = 2 \<and> reader s' = 0 \<and> head s' = 0 \<and> end_ptr s' = 0) \<and>
   0 \<le> chrdev_result no_memory \<and> cdev_add_result no_memory = 0 \<and>
   (\<exists>s'. scull_init_module no_memory (scull_statics 0 0 4 2) = (- ENOMEM, s') \<and>
      \<not> queue_allocated s' \<and> \<not> cdev_live s' \<and> \<not> chrdev_registered s')"
proof -
  have v: "valid_params (scull_statics 0 0 4 2)"
    by (simp add: valid_params_def scull_statics_def)
  have z: "0 \<le> chrdev_result zeroed" "cdev_add_result zeroed = 0"
    by (simp_all add: zeroed_def)
  have n: "0 \<le> chrdev_result no_memory" "cdev_add_result no_memory = 0"
    by (simp_all add: no_memory_def)
  have k: "kmalloc_result zeroed = Some (\<lambda>a. 0)" "kmalloc_result no_memory = None"
    by (simp_all add: zeroed_def no_memory_def)
  have p: "capacity (scull_statics 0 0 4 2) = 2" "elem_size (scull_statics 0 0 4 2) = 4"
    by (simp_all add: capacity_def elem_size_def scull_statics_def)
  show ?thesis
    using v z n init_constructs [OF v z] init_constructs [OF v n]
    by (simp add: k p sizeof_ssize_t_def)
qed

text \<open>
  C8 (the record size query), as amended. For a command word \<open>SCULL_IOCGETELEMSZ\<close> that
  carries the driver's magic number and a command number within range,
  \<open>scull_ioctl\<close> returns \<open>scull_fifo_elemsz\<close> when \<open>access_ok\<close> accepts the argument
  for the size the command word encodes, and \<open>-EFAULT\<close> when it does not; in both cases
  the state is unchanged.
\<close>

theorem ioctl_getelemsz:
  assumes "IOC_TYPE (SCULL_IOCGETELEMSZ h) = SCULL_IOC_MAGIC h"
    and "IOC_NR (SCULL_IOCGETELEMSZ h) \<le> SCULL_IOC_MAXNR h"
  shows "scull_ioctl h access_ok (SCULL_IOCGETELEMSZ h) arg s =
           (if access_ok arg (IOC_SIZE (SCULL_IOCGETELEMSZ h)) then scull_fifo_elemsz s else - EFAULT, s)"
  using assms by (simp add: scull_ioctl_def not_less [symmetric])

theorem ioctl_getelemsz_witness:
  "IOC_TYPE (SCULL_IOCGETELEMSZ scull_h_usual) = SCULL_IOC_MAGIC scull_h_usual \<and>
   IOC_NR (SCULL_IOCGETELEMSZ scull_h_usual) \<le> SCULL_IOC_MAXNR scull_h_usual \<and>
   scull_ioctl scull_h_usual user_space (SCULL_IOCGETELEMSZ scull_h_usual) 0 (fresh_queue 4 2)
     = (4, fresh_queue 4 2)"
proof -
  have t: "IOC_TYPE (SCULL_IOCGETELEMSZ scull_h_usual) = SCULL_IOC_MAGIC scull_h_usual"
    by (simp add: scull_h_usual_def usual_fields)
  have n: "IOC_NR (SCULL_IOCGETELEMSZ scull_h_usual) \<le> SCULL_IOC_MAXNR scull_h_usual"
    by (simp add: scull_h_usual_def usual_fields)
  have a: "user_space 0 (IOC_SIZE (SCULL_IOCGETELEMSZ scull_h_usual))"
    by (simp add: scull_h_usual_def usual_fields user_space_def)
  have e: "scull_fifo_elemsz (fresh_queue 4 2) = 4" by (simp add: fresh_4_2)
  show ?thesis
    using t n ioctl_getelemsz [OF t n, of user_space 0 "fresh_queue 4 2"]
    by (simp add: a e)
qed

text \<open>
  C8 as stated, that the query returns the record size whatever its argument, fails at an
  argument outside the user address space: line 172 returns \<open>-EFAULT\<close> before the
  command is looked at.
\<close>

theorem ioctl_getelemsz_counterexample:
  "fst (scull_ioctl scull_h_usual user_space (SCULL_IOCGETELEMSZ scull_h_usual)
          0xFFFFFFFFFFFFFFFF (fresh_queue 4 2)) \<noteq> scull_fifo_elemsz (fresh_queue 4 2)"
  by (simp add: scull_ioctl_def scull_h_usual_def usual_fields user_space_def fresh_4_2 EFAULT_def)

text \<open>
  C9 (short reads). A read that asks for fewer bytes than the head record has returns
  that many bytes and moves the head cursor by a whole slot (\<open>partial_read\<close>); the rest
  of the record should never be returned by a later read. In the code it can be: after
  "abcd" was written to the queue of one slot and two bytes of it were read, a write from
  an unreadable source returns \<open>-EFAULT\<close> and still adds a permit to \<open>reader\<close>, and the
  next read of four bytes returns a zero byte followed by "bcd", of which "cd" had been
  discarded by the short read.
\<close>

theorem discarded_bytes_return:
  "run (fresh_queue 4 1) [Write [97, 98, 99, 100] 4, Read 2 2] =
     Some ([Wrote 4, Got 2 [97, 98]], one_slot_read) \<and>
   scull_write quiet [] 1 one_slot_read =
     Write_Returns (- EFAULT)
       (one_slot_read\<lparr>writer := 0, reader := 1,
          scull_message_queue := [4,0,0,0,0,0,0,0,0,98,99,100]\<rparr>) \<and>
   scull_read quiet 4 4
       (one_slot_read\<lparr>writer := 0, reader := 1,
          scull_message_queue := [4,0,0,0,0,0,0,0,0,98,99,100]\<rparr>) =
     Read_Returns 4 [0, 98, 99, 100]
       (one_slot_read\<lparr>scull_message_queue := [4,0,0,0,0,0,0,0,0,98,99,100]\<rparr>)"
  by (simp add: one_slot_read_def fresh_4_1 eval_defs le_bytes_8)

text \<open>
  C10 (rejected and accepted commands). A command word whose type field is not
  \<open>SCULL_IOC_MAGIC\<close> or whose number field exceeds \<open>SCULL_IOC_MAXNR\<close> gets \<open>-ENOTTY\<close>;
  every command word other than \<open>SCULL_IOCGETELEMSZ\<close> gets \<open>-ENOTTY\<close> or \<open>-EFAULT\<close>;
  no call changes the state; and \<open>SCULL_IOCGETELEMSZ\<close> itself succeeds: when it carries
  the magic number and a number within range and \<open>access_ok\<close> accepts the argument, the
  call returns \<open>scull_fifo_elemsz\<close>.
\<close>

theorem ioctl_rejects:
  "(IOC_TYPE cmd \<noteq> SCULL_IOC_MAGIC h \<or> SCULL_IOC_MAXNR h < IOC_NR cmd \<longrightarrow>
      scull_ioctl h access_ok cmd arg s = (- ENOTTY, s)) \<and>
   (cmd \<noteq> SCULL_IOCGETELEMSZ h \<longrightarrow>
      fst (scull_ioctl h access_ok cmd arg s) \<in> {- ENOTTY, - EFAULT}) \<and>
   snd (scull_ioctl h access_ok cmd arg s) = s \<and>
   (IOC_TYPE (SCULL_IOCGETELEMSZ h) = SCULL_IOC_MAGIC h \<and>
    IOC_NR (SCULL_IOCGETELEMSZ h) \<le> SCULL_IOC_MAXNR h \<and>
    access_ok arg (IOC_SIZE (SCULL_IOCGETELEMSZ h)) \<longrightarrow>
      scull_ioctl h access_ok (SCULL_IOCGETELEMSZ h) arg s = (scull_fifo_elemsz s, s))"
  by (simp add: scull_ioctl_def not_less [symmetric])

theorem ioctl_rejects_witness:
  "IOC_TYPE 0x6C01 \<noteq> SCULL_IOC_MAGIC scull_h_usual \<and>
   SCULL_IOC_MAXNR scull_h_usual < IOC_NR 0x6B02 \<and>
   0x6C01 \<noteq> SCULL_IOCGETELEMSZ scull_h_usual \<and>
   IOC_TYPE (SCULL_IOCGETELEMSZ scull_h_usual) = SCULL_IOC_MAGIC scull_h_usual \<and>
   IOC_NR (SCULL_IOCGETELEMSZ scull_h_usual) \<le> SCULL_IOC_MAXNR scull_h_usual \<and>
   user_space 0 (IOC_SIZE (SCULL_IOCGETELEMSZ scull_h_usual)) \<and>
   scull_ioctl scull_h_usual user_space 0x6C01 0 (fresh_queue 4 2) = (- ENOTTY, fresh_queue 4 2) \<and>
   scull_ioctl scull_h_usual user_space 0x6B02 0 (fresh_queue 4 2) = (- ENOTTY, fresh_queue 4 2) \<and>
   scull_ioctl scull_h_usual user_space 0x6B01 0 (fresh_queue 4 2) = (4, fresh_queue 4 2)"
proof -
  have t: "IOC_TYPE 0x6C01 \<noteq> SCULL_IOC_MAGIC scull_h_usual"
    by (simp add: scull_h_usual_def usual_fields)
  have n: "SCULL_IOC_MAXNR scull_h_usual < IOC_NR 0x6B02"
    by (simp add: scull_h_usual_def usual_fields)
  have d: "0x6C01 \<noteq> SCULL_IOCGETELEMSZ scull_h_usual"
    by (simp add: scull_h_usual_def)
  have g: "SCULL_IOCGETELEMSZ scull_h_usual = 0x6B01"
    by (simp add: scull_h_usual_def)
  have w: "IOC_TYPE (SCULL_IOCGETELEMSZ scull_h_usual) = SCULL_IOC_MAGIC scull_h_usual"
    "IOC_NR (SCULL_IOCGETELEMSZ scull_h_usual) \<le> SCULL_IOC_MAXNR scull_h_usual"
    "user_space 0 (IOC_SIZE (SCULL_IOCGETELEMSZ scull_h_usual))"
    by (simp_all add: scull_h_usual_def usual_fields user_space_def)
  have e: "scull_fifo_elemsz (fresh_queue 4 2) = 4" by (simp add: fresh_4_2)
  show ?thesis
    using t n d w
      ioctl_rejects [of "0x6C01" scull_h_usual user_space 0 "fresh_queue 4 2"]
      ioctl_rejects [of "0x6B02" scull_h_usual user_space 0 "fresh_queue 4 2"]
    by (simp add: g e)
qed

end
